theory Spec2Isabelle
  imports Complex_Main "HOL-Library.Sublist" "HOL-Library.Char_ord" "HOL-Library.List_Lexorder"
    "HOL-Library.Log_Nat"
begin

section \<open>The collaboration network graph of N.E.S.T (network_graph.js)\<close>

text \<open>
  The script draws a force-directed graph with D3 v7. The embedding below follows
  \<^verbatim>\<open>render\<close> and the handlers it installs. A string is a list of code units below
  256, each \<open>char\<close> standing for the code unit of its number (ASCII and the Latin-1
  letters); a missing JSON field (\<^verbatim>\<open>undefined\<close>) is \<open>None\<close>. Numbers are
  real numbers: the scales are first taken in exact arithmetic, and then once more with
  every operation rounded to binary64 as the engine does it. The functions of the D3 library that the
  script calls (\<^verbatim>\<open>d3.max\<close>, \<^verbatim>\<open>d3.scaleLinear\<close>, the
  initialisation of \<^verbatim>\<open>d3.forceLink\<close>) are written out after the library's
  own code, since the claims depend on what they return.
\<close>

subsection \<open>Data model\<close>

record node =
  node_id :: int
  name :: string
  department :: string
  archetype :: "string option"
  capabilities :: "string list"
  capability_count :: int
  collab_count :: int
  node_x :: real
  node_y :: real
  fx :: "real option"
  fy :: "real option"

record link =
  source :: int
  target :: int
  weight :: real

record graph =
  nodes :: "node list"
  links :: "link list"

text \<open>The closure variables \<^verbatim>\<open>width\<close> and \<^verbatim>\<open>height\<close> of the script.\<close>

record viewport =
  width :: real
  height :: real

subsection \<open>JavaScript values and property lookup\<close>

text \<open>
  \<^verbatim>\<open>ARCHETYPE_COLORS\<close> is an object literal, so \<^verbatim>\<open>ARCHETYPE_COLORS[a]\<close>
  is a property read: it finds the object's own properties first and then those inherited
  from \<^verbatim>\<open>Object.prototype\<close>, whose values are functions (or, for
  \<^verbatim>\<open>__proto__\<close>, the prototype object itself). A read that finds nothing
  gives \<^verbatim>\<open>undefined\<close>.
\<close>

datatype jsval = JUndefined | JStr string | JBuiltin string

definition ARCHETYPE_COLORS :: "(string \<times> string) list" where
  "ARCHETYPE_COLORS =
     [(''Builder'', ''#6366f1''),
      (''Designer'', ''#f472b6''),
      (''Researcher'', ''#22d3ee''),
      (''Communicator'', ''#facc15''),
      (''Strategist'', ''#34d399''),
      (''Unknown'', ''#94a3b8'')]"

definition Object_prototype_keys :: "string list" where
  "Object_prototype_keys =
     [''constructor'', ''hasOwnProperty'', ''isPrototypeOf'', ''propertyIsEnumerable'',
      ''toLocaleString'', ''toString'', ''valueOf'', ''__proto__'',
      ''__defineGetter__'', ''__defineSetter__'', ''__lookupGetter__'', ''__lookupSetter__'']"

definition get_property :: "(string \<times> string) list \<Rightarrow> string \<Rightarrow> jsval" where
  "get_property obj k =
     (case map_of obj k of
        Some v \<Rightarrow> JStr v
      | None \<Rightarrow> if k \<in> set Object_prototype_keys then JBuiltin k else JUndefined)"

fun truthy :: "jsval \<Rightarrow> bool" where
  "truthy JUndefined = False"
| "truthy (JStr s) = (s \<noteq> [])"
| "truthy (JBuiltin k) = True"

definition js_or :: "jsval \<Rightarrow> jsval \<Rightarrow> jsval" where
  "js_or a b = (if truthy a then a else b)"

text \<open>The key a value is converted to when it indexes an object.\<close>

definition property_key :: "string option \<Rightarrow> string" where
  "property_key a = (case a of None \<Rightarrow> ''undefined'' | Some s \<Rightarrow> s)"

text \<open>
  The expression \<^verbatim>\<open>ARCHETYPE_COLORS[a] || ARCHETYPE_COLORS.Unknown\<close>, which the
  script repeats wherever it needs the colour of an archetype.
\<close>

definition archetype_color :: "string option \<Rightarrow> jsval" where
  "archetype_color a =
     js_or (get_property ARCHETYPE_COLORS (property_key a))
           (get_property ARCHETYPE_COLORS ''Unknown'')"

subsection \<open>Scales\<close>

text \<open>
  \<^verbatim>\<open>d3.max\<close> (d3-array) walks the values and keeps the largest; on no values it
  returns \<^verbatim>\<open>undefined\<close>.
\<close>

fun d3_max_from :: "real option \<Rightarrow> real list \<Rightarrow> real option" where
  "d3_max_from m [] = m"
| "d3_max_from None (v # vs) = d3_max_from (Some v) vs"
| "d3_max_from (Some m) (v # vs) = d3_max_from (if m < v then Some v else Some m) vs"

definition d3_max :: "real list \<Rightarrow> real option" where
  "d3_max vs = d3_max_from None vs"

text \<open>\<^verbatim>\<open>e || 1\<close> on a number or \<^verbatim>\<open>undefined\<close>: zero and undefined are falsy.\<close>

definition or_one :: "real option \<Rightarrow> real" where
  "or_one m = (case m of None \<Rightarrow> 1 | Some v \<Rightarrow> if v = 0 then 1 else v)"

text \<open>
  \<^verbatim>\<open>d3.scaleLinear().domain([d0, d1]).range([r0, r1])\<close> (d3-scale): the library
  normalises the input over the domain (a domain of one point normalises everything to one half),
  interpolates over the range, and swaps both ends when the domain is descending. It does
  not clamp. These definitions give the exact value of each expression; the value after
  the engine's rounding follows further down.
\<close>

definition normalize :: "real \<Rightarrow> real \<Rightarrow> real \<Rightarrow> real" where
  "normalize a b v = (if b - a \<noteq> 0 then (v - a) / (b - a) else 1 / 2)"

definition interpolateNumber :: "real \<Rightarrow> real \<Rightarrow> real \<Rightarrow> real" where
  "interpolateNumber a b t = a * (1 - t) + b * t"

definition scaleLinear :: "real \<Rightarrow> real \<Rightarrow> real \<Rightarrow> real \<Rightarrow> real \<Rightarrow> real" where
  "scaleLinear d0 d1 r0 r1 v =
     (if d1 < d0 then interpolateNumber r1 r0 (normalize d1 d0 v)
      else interpolateNumber r0 r1 (normalize d0 d1 v))"

definition maxCollab :: "node list \<Rightarrow> real" where
  "maxCollab ns = or_one (d3_max (map (\<lambda>d. real_of_int (collab_count d)) ns))"

definition nodeRadius :: "node list \<Rightarrow> real \<Rightarrow> real" where
  "nodeRadius ns = scaleLinear 0 (maxCollab ns) 6 22"

definition maxWeight :: "link list \<Rightarrow> real" where
  "maxWeight ls = or_one (d3_max (map weight ls))"

definition linkWidth :: "link list \<Rightarrow> real \<Rightarrow> real" where
  "linkWidth ls = scaleLinear 1 (maxWeight ls) (3 / 2) 6"

text \<open>
  The same scales as the engine computes them. A number is a binary64 value, and every
  subtraction, division, multiplication and addition of the library's code gives the
  exact result rounded to the nearest binary64 value, ties to the even significand:
  \<open>round64\<close> scales the magnitude so that its integer part has 53 bits (fewer below
  the smallest normal exponent), rounds to an integer and scales back. Results beyond the
  largest binary64 value, which the engine turns into infinity, are outside this model.
  Comparisons, \<^verbatim>\<open>d3.max\<close> and \<^verbatim>\<open>|| 1\<close> round nothing.
\<close>

definition pow2 :: "int \<Rightarrow> real" where
  "pow2 k = (if 0 \<le> k then 2 ^ nat k else 1 / 2 ^ nat (- k))"

text \<open>For a positive number, the exponent \<open>e\<close> with \<open>pow2 e \<le> a < pow2 (e + 1)\<close>.\<close>

definition binary_exponent :: "real \<Rightarrow> int" where
  "binary_exponent a =
     (if 1 \<le> a then bitlen \<lfloor>a\<rfloor> - 1
      else let k = bitlen \<lfloor>1 / a\<rfloor> in if a * 2 ^ nat (k - 1) = 1 then 1 - k else - k)"

definition round_half_even :: "real \<Rightarrow> int" where
  "round_half_even v =
     (let n = \<lfloor>v\<rfloor>; r = v - of_int n
      in if r < 1 / 2 then n else if 1 / 2 < r then n + 1 else if even n then n else n + 1)"

definition round64 :: "real \<Rightarrow> real" where
  "round64 v =
     (if v = 0 then 0
      else let e = max (binary_exponent \<bar>v\<bar>) (- 1022)
           in sgn v * of_int (round_half_even (\<bar>v\<bar> * pow2 (52 - e))) * pow2 (e - 52))"






text \<open>
  The radius scale in the words of the specification: the domain ends at the largest
  collaboration count, or at 1 when the graph has at most one distinct count.
\<close>

definition spec_linear :: "real \<Rightarrow> real \<Rightarrow> real \<Rightarrow> real \<Rightarrow> real \<Rightarrow> real" where
  "spec_linear d0 d1 r0 r1 v = r0 + (v - d0) * (r1 - r0) / (d1 - d0)"

definition spec_maxCollab :: "node list \<Rightarrow> real" where
  "spec_maxCollab ns =
     (if length (remdups (map collab_count ns)) \<le> 1 then 1
      else real_of_int (Max (set (map collab_count ns))))"

definition spec_nodeRadius :: "node list \<Rightarrow> real \<Rightarrow> real" where
  "spec_nodeRadius ns = spec_linear 0 (spec_maxCollab ns) 6 22"

subsection \<open>The scene that render builds\<close>

record ring_circle =
  ring_r :: real
  ring_stroke :: jsval
  ring_stroke_width :: real
  ring_stroke_opacity :: real

record body_circle =
  body_r :: real
  body_fill :: jsval
  body_fill_opacity :: real

record label_text =
  label_str :: string
  label_dy :: real

text \<open>One \<^verbatim>\<open>g.node-g\<close>; its \<^verbatim>\<open>opacity\<close> attribute is absent until a filter sets it.\<close>

record node_g =
  datum :: node
  opacity :: "real option"
  ring :: ring_circle
  body :: body_circle
  label :: label_text

text \<open>
  One \<^verbatim>\<open>line\<close>. The stroke is the constant \<^verbatim>\<open>rgba(13, 148, 136, .35)\<close>,
  kept here as its alpha channel; \<^verbatim>\<open>stroke-opacity\<close> is absent until a filter
  sets it, and an absent attribute paints as 1.
\<close>

record link_line =
  link_datum :: link
  line_stroke_alpha :: real
  line_stroke_width :: real
  line_stroke_opacity :: "real option"

definition painted_opacity :: "link_line \<Rightarrow> real" where
  "painted_opacity l =
     line_stroke_alpha l * (case line_stroke_opacity l of None \<Rightarrow> 1 | Some v \<Rightarrow> v)"

record svg_text =
  text_x :: real
  text_y :: real
  text_anchor :: string
  text_content :: string

record simulation =
  alpha :: real
  alphaTarget :: real
  timer_running :: bool
  center :: "real \<times> real"
  collide_radius :: "real list"

text \<open>
  The page: what render has added to the document, and in \<open>sim\<close> the value of the
  script's \<^verbatim>\<open>simulation\<close> constant once the chain of \<^verbatim>\<open>force\<close> calls has
  returned.
\<close>

record page =
  svg_texts :: "svg_text list"
  scene_groups :: nat
  dept_options :: "string list"
  arch_options :: "string list"
  legend :: "(jsval \<times> string) list"
  link_lines :: "link_line list"
  node_gs :: "node_g list"
  sim :: "simulation option"

definition blank_page :: page where
  "blank_page =
     \<lparr>svg_texts = [], scene_groups = 0, dept_options = [], arch_options = [], legend = [],
      link_lines = [], node_gs = [], sim = None\<rparr>"

subsection \<open>Link resolution of the force layout\<close>

text \<open>
  \<^verbatim>\<open>simulation.force("link", d3.forceLink(links).id(d => d.id))\<close> initialises the
  link force. That is code of the D3 library (d3-force), not of the script: it builds a
  map from each node's id to the node (a later node with the same id replaces an earlier
  one), then goes through the links in order and replaces each link's
  \<^verbatim>\<open>source\<close> and then its \<^verbatim>\<open>target\<close> id by the node with that id, and
  throws \<^verbatim>\<open>Error("node not found: " + id)\<close> at the first id that has no node.
\<close>

datatype render_error = NodeNotFound int

definition nodeById :: "node list \<Rightarrow> int \<Rightarrow> node option" where
  "nodeById ns = map_of (rev (map (\<lambda>d. (node_id d, d)) ns))"

fun initialize_links :: "node list \<Rightarrow> link list \<Rightarrow> render_error + (node \<times> node \<times> link) list" where
  "initialize_links ns [] = Inr []"
| "initialize_links ns (l # ls) =
     (case nodeById ns (source l) of
        None \<Rightarrow> Inl (NodeNotFound (source l))
      | Some s \<Rightarrow>
          (case nodeById ns (target l) of
             None \<Rightarrow> Inl (NodeNotFound (target l))
           | Some t \<Rightarrow>
               (case initialize_links ns ls of
                  Inl e \<Rightarrow> Inl e
                | Inr rs \<Rightarrow> Inr ((s, t, l) # rs))))"

subsection \<open>render\<close>

text \<open>\<^verbatim>\<open>[...new Set(values)].sort()\<close>: the distinct values in ascending order, a missing one last.\<close>

definition distinct_sorted :: "string list \<Rightarrow> string list" where
  "distinct_sorted vs = sort (remdups vs)"

definition distinct_sorted_opt :: "string option list \<Rightarrow> string option list" where
  "distinct_sorted_opt vs =
     map Some (distinct_sorted (concat (map (\<lambda>v. case v of None \<Rightarrow> [] | Some s \<Rightarrow> [s]) vs)))
     @ (if None \<in> set vs then [None] else [])"

text \<open>\<^verbatim>\<open>d.name.split(" ")[0]\<close>\<close>

definition first_token :: "string \<Rightarrow> string" where
  "first_token s = takeWhile (\<lambda>c. c \<noteq> CHR '' '') s"

definition placeholder_text :: "viewport \<Rightarrow> svg_text" where
  "placeholder_text vp =
     \<lparr>text_x = width vp / 2, text_y = height vp / 2, text_anchor = ''middle'',
      text_content = ''No users found. The network is empty.''\<rparr>"

definition legend_item :: "string option \<Rightarrow> jsval \<times> string" where
  "legend_item a = (archetype_color a, property_key a)"

definition draw_link :: "link list \<Rightarrow> link \<Rightarrow> link_line" where
  "draw_link ls l =
     \<lparr>link_datum = l, line_stroke_alpha = 35 / 100,
      line_stroke_width = linkWidth ls (weight l), line_stroke_opacity = None\<rparr>"

definition draw_node :: "node list \<Rightarrow> node \<Rightarrow> node_g" where
  "draw_node ns d =
     \<lparr>datum = d, opacity = None,
      ring = \<lparr>ring_r = nodeRadius ns (real_of_int (collab_count d)) + 3,
              ring_stroke = archetype_color (archetype d),
              ring_stroke_width = 2, ring_stroke_opacity = 3 / 10\<rparr>,
      body = \<lparr>body_r = nodeRadius ns (real_of_int (collab_count d)),
              body_fill = archetype_color (archetype d),
              body_fill_opacity = 85 / 100\<rparr>,
      label = \<lparr>label_str = first_token (name d),
               label_dy = nodeRadius ns (real_of_int (collab_count d)) + 14\<rparr>\<rparr>"

definition forceSimulation :: "viewport \<Rightarrow> node list \<Rightarrow> simulation" where
  "forceSimulation vp ns =
     \<lparr>alpha = 1, alphaTarget = 0, timer_running = True,
      center = (width vp / 2, height vp / 2),
      collide_radius = map (\<lambda>d. nodeRadius ns (real_of_int (collab_count d)) + 4) ns\<rparr>"

text \<open>
  \<^verbatim>\<open>render(data)\<close>, from a blank page. The page records the placeholder, the
  options and legend entries added, the number of groups appended (the scene group and
  its two layers), the lines and node groups drawn and the simulation created; the zoom
  behaviour and the tooltip's contents are not part of it. The result is the page it leaves behind; when
  the link force throws, the exception goes with the page as it was at the throw (the
  selectors, the legend and the empty groups are already there, nothing is drawn).
\<close>

definition render :: "viewport \<Rightarrow> graph \<Rightarrow> (render_error \<times> page) + page" where
  "render vp data =
     (if length (nodes data) = 0 then
        Inr (blank_page\<lparr>svg_texts := [placeholder_text vp]\<rparr>)
      else
        let departments = distinct_sorted (map department (nodes data));
            archetypes = distinct_sorted_opt (map archetype (nodes data));
            p = blank_page
                  \<lparr>dept_options := departments,
                   arch_options := map property_key archetypes,
                   legend := map legend_item archetypes,
                   scene_groups := 3\<rparr>
        in case initialize_links (nodes data) (links data) of
             Inl e \<Rightarrow> Inl (e, p)
           | Inr resolved \<Rightarrow>
               Inr (p\<lparr>sim := Some (forceSimulation vp (nodes data)),
                      link_lines := map (draw_link (links data)) (links data),
                      node_gs := map (draw_node (nodes data)) (nodes data)\<rparr>))"

subsection \<open>The detail panel\<close>

text \<open>The colours the click handler writes into the side panel for the clicked node.\<close>

record sidebar_view =
  avatar_border :: jsval
  icon_color :: jsval
  badge_background :: jsval
  count_color :: jsval
  badge_text :: string

definition node_click :: "node \<Rightarrow> sidebar_view" where
  "node_click d =
     \<lparr>avatar_border = archetype_color (archetype d),
      icon_color = archetype_color (archetype d),
      badge_background = archetype_color (archetype d),
      count_color = archetype_color (archetype d),
      badge_text = property_key (archetype d)\<rparr>"

subsection \<open>Tooltip placement\<close>



subsection \<open>Drag handlers\<close>

text \<open>
  A drag event carries the number of other gestures still active and the position the
  gesture gives the node. The handlers share the simulation and write the dragged node.
\<close>

record drag_event =
  active :: nat
  event_x :: real
  event_y :: real

definition dragStarted :: "drag_event \<Rightarrow> simulation \<times> node \<Rightarrow> simulation \<times> node" where
  "dragStarted event st =
     (case st of (s, d) \<Rightarrow>
        (if active event = 0 then s\<lparr>alphaTarget := 3 / 10, timer_running := True\<rparr> else s,
         d\<lparr>fx := Some (node_x d), fy := Some (node_y d)\<rparr>))"

definition dragged :: "drag_event \<Rightarrow> simulation \<times> node \<Rightarrow> simulation \<times> node" where
  "dragged event st =
     (case st of (s, d) \<Rightarrow> (s, d\<lparr>fx := Some (event_x event), fy := Some (event_y event)\<rparr>))"

definition dragEnded :: "drag_event \<Rightarrow> simulation \<times> node \<Rightarrow> simulation \<times> node" where
  "dragEnded event st =
     (case st of (s, d) \<Rightarrow>
        (if active event = 0 then s\<lparr>alphaTarget := 0\<rparr> else s,
         d\<lparr>fx := None, fy := None\<rparr>))"

text \<open>A gesture: one start, the moves in order, one end.\<close>

definition drag_moves :: "drag_event list \<Rightarrow> simulation \<times> node \<Rightarrow> simulation \<times> node" where
  "drag_moves moves st = foldl (\<lambda>acc e. dragged e acc) st moves"

definition drag_gesture ::
  "drag_event \<Rightarrow> drag_event list \<Rightarrow> drag_event \<Rightarrow> simulation \<times> node \<Rightarrow> simulation \<times> node" where
  "drag_gesture start moves end_ev st = dragEnded end_ev (drag_moves moves (dragStarted start st))"

subsection \<open>Search and filter\<close>

text \<open>
  \<^verbatim>\<open>toLowerCase\<close> and \<^verbatim>\<open>includes\<close>. Among the code units below 256 the
  built-in changes the capitals A to Z (65 to 90) and the Latin-1 capitals U+00C0 to
  U+00D6 and U+00D8 to U+00DE, each to the code unit 32 above it, and nothing else (the
  multiplication sign U+00D7 lies between the two Latin-1 runs).
\<close>

definition toLowerCase_char :: "char \<Rightarrow> char" where
  "toLowerCase_char c =
     (let k = (of_char c :: nat)
      in if (65 \<le> k \<and> k \<le> 90) \<or> (192 \<le> k \<and> k \<le> 214) \<or> (216 \<le> k \<and> k \<le> 222)
         then char_of (k + 32) else c)"

definition toLowerCase :: "string \<Rightarrow> string" where
  "toLowerCase s = map toLowerCase_char s"

fun str_includes :: "string \<Rightarrow> string \<Rightarrow> bool" where
  "str_includes [] t = (t = [])"
| "str_includes (c # s) t = (prefix t (c # s) \<or> str_includes s t)"

text \<open>The values of the search field and of the two selectors; the "any" option has the empty value.\<close>

record filter_state =
  searchInput :: string
  filterDept :: string
  filterArch :: string

definition matchSearch :: "filter_state \<Rightarrow> node \<Rightarrow> bool" where
  "matchSearch fs d =
     (let searchTerm = toLowerCase (searchInput fs)
      in searchTerm = [] \<or> str_includes (toLowerCase (name d)) searchTerm)"

definition matchDept :: "filter_state \<Rightarrow> node \<Rightarrow> bool" where
  "matchDept fs d = (filterDept fs = [] \<or> department d = filterDept fs)"

definition matchArch :: "filter_state \<Rightarrow> node \<Rightarrow> bool" where
  "matchArch fs d = (filterArch fs = [] \<or> archetype d = Some (filterArch fs))"

definition visible :: "filter_state \<Rightarrow> node \<Rightarrow> bool" where
  "visible fs d = (matchSearch fs d \<and> matchDept fs d \<and> matchArch fs d)"

definition highlighted :: "filter_state \<Rightarrow> node \<Rightarrow> bool" where
  "highlighted fs d =
     (let searchTerm = toLowerCase (searchInput fs)
      in searchTerm \<noteq> [] \<and> str_includes (toLowerCase (name d)) searchTerm)"

definition filter_node :: "filter_state \<Rightarrow> node_g \<Rightarrow> node_g" where
  "filter_node fs g =
     (let g1 = g\<lparr>opacity := Some (if visible fs (datum g) then 1 else 8 / 100)\<rparr>
      in if highlighted fs (datum g)
         then g1\<lparr>ring := (ring g1)\<lparr>ring_stroke_opacity := 1, ring_stroke_width := 4\<rparr>\<rparr>
         else g1\<lparr>ring := (ring g1)\<lparr>ring_stroke_opacity := 3 / 10, ring_stroke_width := 2\<rparr>\<rparr>)"

definition filter_link :: "link_line \<Rightarrow> link_line" where
  "filter_link l = l\<lparr>line_stroke_opacity := Some (25 / 100)\<rparr>"

text \<open>\<^verbatim>\<open>applyFilters\<close>; the transitions are taken at their end values.\<close>

definition applyFilters :: "filter_state \<Rightarrow> page \<Rightarrow> page" where
  "applyFilters fs p =
     p\<lparr>node_gs := map (filter_node fs) (node_gs p),
       link_lines := map filter_link (link_lines p)\<rparr>"

text \<open>The page after a sequence of input events, each one a call of \<^verbatim>\<open>applyFilters\<close>.\<close>

definition input_events :: "filter_state list \<Rightarrow> page \<Rightarrow> page" where
  "input_events evs p = foldl (\<lambda>acc fs. applyFilters fs acc) p evs"








subsection \<open>Example data\<close>

text \<open>
  The two-node graph of the specification's example, a graph of one node, a graph with
  a link and no nodes, a graph with a link to a node that is not there, the graph with
  nothing in it, and a node whose archetype is the name of an inherited property.
\<close>

definition ada :: node where
  "ada = \<lparr>node_id = 1, name = ''Ada Lovelace'', department = ''Engineering'',
          archetype = Some ''Builder'', capabilities = [''python''], capability_count = 1,
          collab_count = 5, node_x = 10, node_y = 20, fx = None, fy = None\<rparr>"

definition alan :: node where
  "alan = \<lparr>node_id = 2, name = ''Alan Turing'', department = ''Research'',
           archetype = Some ''Researcher'', capabilities = [], capability_count = 0,
           collab_count = 0, node_x = 30, node_y = 40, fx = None, fy = None\<rparr>"

definition eve :: node where
  "eve = \<lparr>node_id = 3, name = ''Eve'', department = ''Research'',
          archetype = Some ''constructor'', capabilities = [], capability_count = 0,
          collab_count = 1, node_x = 0, node_y = 0, fx = None, fy = None\<rparr>"

definition ada_alan :: link where
  "ada_alan = \<lparr>source = 1, target = 2, weight = 2\<rparr>"

definition example_graph :: graph where
  "example_graph = \<lparr>nodes = [ada, alan], links = [ada_alan]\<rparr>"

definition solo_graph :: graph where
  "solo_graph = \<lparr>nodes = [ada], links = []\<rparr>"

definition orphan_graph :: graph where
  "orphan_graph = \<lparr>nodes = [], links = [ada_alan]\<rparr>"

definition ada_nobody :: link where
  "ada_nobody = \<lparr>source = 1, target = 7, weight = 1\<rparr>"

definition dangling_graph :: graph where
  "dangling_graph = \<lparr>nodes = [ada, alan], links = [ada_alan, ada_nobody]\<rparr>"

definition empty_graph :: graph where
  "empty_graph = \<lparr>nodes = [], links = []\<rparr>"

definition example_viewport :: viewport where
  "example_viewport = \<lparr>width = 800, height = 600\<rparr>"

text \<open>The page render leaves behind, whether it returned or threw.\<close>

definition page_of :: "(render_error \<times> page) + page \<Rightarrow> page" where
  "page_of r = (case r of Inl (e, p) \<Rightarrow> p | Inr p \<Rightarrow> p)"

definition example_page :: page where
  "example_page = page_of (render example_viewport example_graph)"

definition search_ada :: filter_state where
  "search_ada = \<lparr>searchInput = ''ADA'', filterDept = [], filterArch = ''Researcher''\<rparr>"

definition no_filter :: filter_state where
  "no_filter = \<lparr>searchInput = [], filterDept = [], filterArch = []\<rparr>"



















definition example_simulation :: simulation where
  "example_simulation = forceSimulation example_viewport [ada, alan]"

definition drag_start :: drag_event where
  "drag_start = \<lparr>active = 0, event_x = 10, event_y = 20\<rparr>"

definition drag_to :: drag_event where
  "drag_to = \<lparr>active = 1, event_x = 55, event_y = 65\<rparr>"

definition drag_end :: drag_event where
  "drag_end = \<lparr>active = 0, event_x = 55, event_y = 65\<rparr>"

section \<open>Properties\<close>

subsection \<open>Search and filter\<close>


























lemma applyFilters_link_lines: "link_lines (applyFilters fs p) = map filter_link (link_lines p)"
  by (simp add: applyFilters_def)





text \<open>
  C10. Every call of \<^verbatim>\<open>applyFilters\<close> sets the stroke opacity of every link to 0.25,
  whatever the filter state, the cleared one included, and drops or adds no link. The
  handler exists once render has drawn a graph with nodes. A link drawn by render starts
  without the attribute and paints at the 0.35 of its stroke colour; after one or more
  input events it has the attribute at 0.25 and no longer paints at 0.35.
\<close>

theorem applyFilters_dims_links:
  assumes "render vp g = Inr p" and "nodes g \<noteq> []" and "evs \<noteq> []"
  shows "(\<forall>l\<in>set (link_lines (applyFilters fs q)). line_stroke_opacity l = Some (25 / 100)) \<and>
         (\<forall>l\<in>set (link_lines (applyFilters no_filter q)). line_stroke_opacity l = Some (25 / 100)) \<and>
         map link_datum (link_lines (applyFilters fs q)) = map link_datum (link_lines q) \<and>
         (\<forall>l\<in>set (link_lines p). line_stroke_opacity l = None \<and> painted_opacity l = 35 / 100) \<and>
         (\<forall>l\<in>set (link_lines (input_events evs p)).
            line_stroke_opacity l = Some (25 / 100) \<and> painted_opacity l \<noteq> 35 / 100) \<and>
         map link_datum (link_lines (input_events evs p)) = links g"
proof -
  have one: "\<forall>l\<in>set (link_lines (applyFilters f q')). line_stroke_opacity l = Some (25 / 100)"
    for f q'
    by (simp add: applyFilters_link_lines filter_link_def)
  have keep: "map link_datum (link_lines (applyFilters f q')) = map link_datum (link_lines q')"
    for f q'
    by (simp add: applyFilters_link_lines filter_link_def comp_def)
  have alpha_keep: "map line_stroke_alpha (link_lines (applyFilters f q'))
                      = map line_stroke_alpha (link_lines q')"
    for f q'
    by (simp add: applyFilters_link_lines filter_link_def comp_def)
  have drawn: "link_lines p = map (draw_link (links g)) (links g)"
    using assms(1,2) by (auto simp: render_def Let_def split: sum.splits)
  have initial: "\<forall>l\<in>set (link_lines p). line_stroke_opacity l = None \<and> painted_opacity l = 35 / 100"
    by (simp add: drawn draw_link_def painted_opacity_def)
  have datum_all: "map link_datum (link_lines (input_events es q')) = map link_datum (link_lines q')"
    for es q'
    unfolding input_events_def
    by (induction es arbitrary: q') (simp_all add: keep)
  have alpha_all: "map line_stroke_alpha (link_lines (input_events es q'))
                     = map line_stroke_alpha (link_lines q')"
    for es q'
    unfolding input_events_def
    by (induction es arbitrary: q') (simp_all add: alpha_keep)
  obtain es f where evs: "evs = es @ [f]"
    using assms(3) by (metis append_butlast_last_id)
  have last_call: "input_events evs p = applyFilters f (input_events es p)"
    by (simp add: evs input_events_def)
  have opac: "\<forall>l\<in>set (link_lines (input_events evs p)). line_stroke_opacity l = Some (25 / 100)"
    unfolding last_call by (rule one)
  have "\<forall>a\<in>set (map line_stroke_alpha (link_lines (input_events evs p))). a = 35 / 100"
    unfolding alpha_all by (simp add: drawn draw_link_def)
  then have alpha: "\<forall>l\<in>set (link_lines (input_events evs p)). line_stroke_alpha l = 35 / 100"
    by simp
  have painted: "\<forall>l\<in>set (link_lines (input_events evs p)). painted_opacity l \<noteq> 35 / 100"
    using opac alpha by (simp add: painted_opacity_def)
  have "map link_datum (link_lines (input_events evs p)) = links g"
    by (simp add: datum_all drawn draw_link_def comp_def)
  then show ?thesis
    using one keep initial opac painted by blast
qed

theorem applyFilters_dims_links_witness:
  "render example_viewport example_graph = Inr example_page \<and>
   map line_stroke_opacity (link_lines example_page) = [None] \<and>
   map painted_opacity (link_lines example_page) = [35 / 100] \<and>
   map line_stroke_opacity (link_lines (input_events [search_ada, no_filter] example_page))
     = [Some (25 / 100)] \<and>
   map painted_opacity (link_lines (input_events [search_ada, no_filter] example_page))
     = [7 / 80]"
proof -
  have r: "render example_viewport example_graph = Inr example_page"
    by code_simp
  have n: "nodes example_graph \<noteq> []"
    by code_simp
  have ne: "[search_ada, no_filter] \<noteq> []"
    by simp
  have a: "map line_stroke_opacity (link_lines example_page) = [None]"
    by code_simp
  have b: "map painted_opacity (link_lines example_page) = [35 / 100]"
    by code_simp
  have c: "map line_stroke_opacity (link_lines (input_events [search_ada, no_filter] example_page))
             = [Some (25 / 100)]"
    by code_simp
  have d: "map painted_opacity (link_lines (input_events [search_ada, no_filter] example_page))
             = [7 / 80]"
    by code_simp
  show ?thesis
    using applyFilters_dims_links [OF r n ne, of no_filter example_page] r a b c d
    by simp
qed

subsection \<open>Scales\<close>

lemma d3_max_from_eq:
  "d3_max_from m vs =
     (case m of None \<Rightarrow> (if vs = [] then None else Some (Max (set vs)))
      | Some a \<Rightarrow> Some (Max (insert a (set vs))))"
proof (induction vs arbitrary: m)
  case Nil
  then show ?case by (simp split: option.splits)
next
  case (Cons v vs)
  show ?case
  proof (cases m)
    case None
    then show ?thesis by (simp add: Cons.IH)
  next
    case (Some a)
    have e: "(if a < v then Some v else Some a) = Some (max a v)"
      by (simp add: max_def)
    have "Max (insert (max a v) (set vs)) = Max (insert a (insert v (set vs)))"
      by (cases "set vs = {}") (simp_all add: max.assoc)
    then show ?thesis using Some by (simp add: Cons.IH e del: Max_insert)
  qed
qed

lemma d3_max_eq: "d3_max vs = (if vs = [] then None else Some (Max (set vs)))"
  by (simp add: d3_max_def d3_max_from_eq)

lemma Max_real_of_int:
  assumes "ns \<noteq> []"
  shows "Max ((\<lambda>d. real_of_int (collab_count d)) ` set ns)
           = real_of_int (Max (collab_count ` set ns))"
proof -
  have "(\<lambda>d. real_of_int (collab_count d)) ` set ns = real_of_int ` (collab_count ` set ns)"
    by (simp add: image_image)
  moreover have "Max (real_of_int ` (collab_count ` set ns))
                   = real_of_int (Max (collab_count ` set ns))"
    using assms by (intro mono_Max_commute [symmetric]) (auto simp: mono_def)
  ultimately show ?thesis by simp
qed

lemma maxCollab_eq:
  assumes "ns \<noteq> []"
  shows "maxCollab ns =
           (if Max (collab_count ` set ns) = 0 then 1
            else real_of_int (Max (collab_count ` set ns)))"
  using assms by (simp add: maxCollab_def or_one_def d3_max_eq Max_real_of_int)

lemma maxCollab_nonzero: "ns \<noteq> [] \<Longrightarrow> maxCollab ns \<noteq> 0"
  by (simp add: maxCollab_eq)

lemma maxWeight_eq:
  "maxWeight ls =
     (if ls = [] \<or> Max (weight ` set ls) = 0 then 1 else Max (weight ` set ls))"
  by (simp add: maxWeight_def or_one_def d3_max_eq)

lemma interpolate_ascending:
  "(k::real) \<noteq> 0 \<Longrightarrow> a * (1 - n / k) + b * (n / k) = a + n * (b - a) / k"
  by (simp add: field_simps)

lemma interpolate_descending:
  "(k::real) \<noteq> 0 \<Longrightarrow> b * (1 - (n - k) / (- k)) + a * ((n - k) / (- k)) = a + n * (b - a) / k"
  by (simp add: field_simps)

lemma scaleLinear_linear:
  assumes "d0 \<noteq> d1"
  shows "scaleLinear d0 d1 r0 r1 v = spec_linear d0 d1 r0 r1 v"
proof (cases "d1 < d0")
  case True
  have k: "d1 - d0 \<noteq> 0" using assms by simp
  have "r1 * (1 - (v - d1) / (d0 - d1)) + r0 * ((v - d1) / (d0 - d1))
          = r0 + (v - d0) * (r1 - r0) / (d1 - d0)"
    using interpolate_descending [OF k, of r1 "v - d0" r0] by simp
  then show ?thesis using True
    by (simp add: scaleLinear_def normalize_def interpolateNumber_def spec_linear_def)
next
  case False
  have k: "d1 - d0 \<noteq> 0" using assms by simp
  have "r0 * (1 - (v - d0) / (d1 - d0)) + r1 * ((v - d0) / (d1 - d0))
          = r0 + (v - d0) * (r1 - r0) / (d1 - d0)"
    using interpolate_ascending [OF k, of r0 "v - d0" r1] by simp
  then show ?thesis using False assms
    by (simp add: scaleLinear_def normalize_def interpolateNumber_def spec_linear_def)
qed

lemma scaleLinear_point: "scaleLinear d d r0 r1 v = (r0 + r1) / 2"
  by (simp add: scaleLinear_def normalize_def interpolateNumber_def field_simps)






lemma render_drawn_nodes:
  assumes "render vp g = Inr p" "nodes g \<noteq> []"
  shows "node_gs p = map (draw_node (nodes g)) (nodes g)"
  using assms by (auto simp: render_def Let_def split: sum.splits)

lemma render_drawn_links:
  assumes "render vp g = Inr p" "nodes g \<noteq> []"
  shows "link_lines p = map (draw_link (links g)) (links g)"
  using assms by (auto simp: render_def Let_def split: sum.splits)


text \<open>
  C3, as the code has it. For a graph with at least one node that render has drawn: the
  radius scale is the line through (0, 6) and (m, 22), where m is the largest
  collaboration count, or 1 when that largest count is 0; every node's body has the radius
  the scale gives its count, and a node with count 0 has radius 6. The link-width scale
  has the domain from 1 to the largest weight (1 when there is no link or the largest
  weight is 0) and the range from 1.5 to 6: it is the line through (1, 1.5) and (that
  weight, 6), and when the domain is the single point 1 every width is the midpoint 3.75.
\<close>

theorem scales_of_rendered_graph:
  assumes "render vp g = Inr p" and "nodes g \<noteq> []"
  shows "(\<forall>c. nodeRadius (nodes g) c =
            spec_linear 0 (if Max (collab_count ` set (nodes g)) = 0 then 1
                           else real_of_int (Max (collab_count ` set (nodes g)))) 6 22 c) \<and>
         nodeRadius (nodes g) 0 = 6 \<and>
         map (\<lambda>n. body_r (body n)) (node_gs p)
           = map (\<lambda>d. nodeRadius (nodes g) (real_of_int (collab_count d))) (nodes g) \<and>
         (\<forall>n\<in>set (node_gs p). collab_count (datum n) = 0 \<longrightarrow> body_r (body n) = 6) \<and>
         maxWeight (links g) =
           (if links g = [] \<or> Max (weight ` set (links g)) = 0 then 1
            else Max (weight ` set (links g))) \<and>
         (maxWeight (links g) \<noteq> 1 \<longrightarrow>
            (\<forall>w. linkWidth (links g) w = spec_linear 1 (maxWeight (links g)) (3 / 2) 6 w)) \<and>
         (maxWeight (links g) = 1 \<longrightarrow> (\<forall>w. linkWidth (links g) w = 15 / 4)) \<and>
         map line_stroke_width (link_lines p)
           = map (\<lambda>l. linkWidth (links g) (weight l)) (links g)"
proof -
  have nz: "maxCollab (nodes g) \<noteq> 0"
    using assms(2) by (rule maxCollab_nonzero)
  have line0: "nodeRadius (nodes g) c = spec_linear 0 (maxCollab (nodes g)) 6 22 c" for c
    unfolding nodeRadius_def using nz by (intro scaleLinear_linear) simp
  have radius: "\<forall>c. nodeRadius (nodes g) c =
            spec_linear 0 (if Max (collab_count ` set (nodes g)) = 0 then 1
                           else real_of_int (Max (collab_count ` set (nodes g)))) 6 22 c"
    using line0 by (simp only: maxCollab_eq [OF assms(2)]) simp
  have zero: "nodeRadius (nodes g) 0 = 6"
    by (simp add: line0 spec_linear_def)
  have bodies: "map (\<lambda>n. body_r (body n)) (node_gs p)
                  = map (\<lambda>d. nodeRadius (nodes g) (real_of_int (collab_count d))) (nodes g)"
    by (simp add: render_drawn_nodes [OF assms] draw_node_def comp_def)
  have floor: "\<forall>n\<in>set (node_gs p). collab_count (datum n) = 0 \<longrightarrow> body_r (body n) = 6"
    by (auto simp: render_drawn_nodes [OF assms] draw_node_def zero)
  have domain: "maxWeight (links g) =
           (if links g = [] \<or> Max (weight ` set (links g)) = 0 then 1
            else Max (weight ` set (links g)))"
    by (rule maxWeight_eq)
  have line: "maxWeight (links g) \<noteq> 1 \<longrightarrow>
                (\<forall>w. linkWidth (links g) w = spec_linear 1 (maxWeight (links g)) (3 / 2) 6 w)"
    unfolding linkWidth_def by (auto intro: scaleLinear_linear)
  have point: "maxWeight (links g) = 1 \<longrightarrow> (\<forall>w. linkWidth (links g) w = 15 / 4)"
    by (simp add: linkWidth_def scaleLinear_point)
  have widths: "map line_stroke_width (link_lines p)
                  = map (\<lambda>l. linkWidth (links g) (weight l)) (links g)"
    by (simp add: render_drawn_links [OF assms] draw_link_def comp_def)
  show ?thesis
    by (intro conjI; fact)
qed

theorem scales_of_rendered_graph_witness:
  "render example_viewport example_graph = Inr example_page \<and>
   nodes example_graph \<noteq> [] \<and>
   map (\<lambda>n. body_r (body n)) (node_gs example_page) = [22, 6] \<and>
   nodeRadius (nodes example_graph) 0 = 6 \<and>
   maxWeight (links example_graph) = 2 \<and>
   map line_stroke_width (link_lines example_page) = [6]"
proof -
  have r: "render example_viewport example_graph = Inr example_page"
    by code_simp
  have n: "nodes example_graph \<noteq> []"
    by code_simp
  have radii: "map (\<lambda>d. nodeRadius (nodes example_graph) (real_of_int (collab_count d)))
                 (nodes example_graph) = [22, 6]"
    by code_simp
  have mw: "maxWeight (links example_graph) = 2"
    by code_simp
  have widths: "map (\<lambda>l. linkWidth (links example_graph) (weight l)) (links example_graph) = [6]"
    by code_simp
  note drawn = scales_of_rendered_graph [OF r n]
  have zero: "nodeRadius (nodes example_graph) 0 = 6"
    using drawn by blast
  have "map (\<lambda>n. body_r (body n)) (node_gs example_page)
          = map (\<lambda>d. nodeRadius (nodes example_graph) (real_of_int (collab_count d)))
              (nodes example_graph)"
    using drawn by blast
  then have bodies: "map (\<lambda>n. body_r (body n)) (node_gs example_page) = [22, 6]"
    using radii by (rule trans)
  have "map line_stroke_width (link_lines example_page)
          = map (\<lambda>l. linkWidth (links example_graph) (weight l)) (links example_graph)"
    using drawn by blast
  then have lines: "map line_stroke_width (link_lines example_page) = [6]"
    using widths by (rule trans)
  show ?thesis
    by (intro conjI; fact)
qed

text \<open>
  C3 as the specification words it fails on a graph whose nodes share one collaboration
  count other than 0: for the single node with count 5 the code's domain ends at 5 and
  the node has radius 22, where a domain ending at 1 gives 86.
\<close>

theorem radius_domain_counterexample:
  "nodes solo_graph \<noteq> [] \<and>
   maxCollab (nodes solo_graph) = 5 \<and> spec_maxCollab (nodes solo_graph) = 1 \<and>
   nodeRadius (nodes solo_graph) 5 = 22 \<and> spec_nodeRadius (nodes solo_graph) 5 = 86 \<and>
   map (\<lambda>n. body_r (body n)) (node_gs (page_of (render example_viewport solo_graph))) = [22]"
  by code_simp



text \<open>
  The binary64 rounding: the exponent brackets the number between two powers of two, and
  the rounded value is within half a step of the number.
\<close>

lemma pow2_powr: "pow2 k = 2 powr (real_of_int k)"
  by (auto simp: pow2_def powr_realpow [symmetric] powr_minus divide_inverse)

lemma pow2_pos: "0 < pow2 k"
  by (simp add: pow2_powr)

lemma pow2_next: "pow2 (k + 1) = 2 * pow2 k"
  by (simp add: pow2_powr powr_add)

lemma floor_bracket:
  assumes "1 \<le> (y::real)"
  shows "2 powr real_of_int (bitlen \<lfloor>y\<rfloor> - 1) \<le> y \<and> y < 2 powr real_of_int (bitlen \<lfloor>y\<rfloor>)"
proof -
  let ?n = "\<lfloor>y\<rfloor>"
  have n: "0 < ?n" using assms by simp
  have b: "2 ^ nat (bitlen ?n - 1) \<le> ?n" "?n < 2 ^ nat (bitlen ?n)"
    using bitlen_bounds [OF n] by simp_all
  have k: "0 < bitlen ?n"
    using n bitlen_nonneg [of ?n] bitlen_eq_zero_iff [of ?n] by linarith
  have "real_of_int (2 ^ nat (bitlen ?n - 1)) \<le> real_of_int ?n"
    using b(1) by linarith
  then have lo: "2 ^ nat (bitlen ?n - 1) \<le> y"
    by (simp add: le_floor_iff)
  have "?n + 1 \<le> 2 ^ nat (bitlen ?n)" using b(2) by simp
  then have "real_of_int (?n + 1) \<le> real_of_int (2 ^ nat (bitlen ?n))"
    by (rule of_int_le_iff [THEN iffD2])
  then have "real_of_int ?n + 1 \<le> 2 ^ nat (bitlen ?n)"
    by simp
  moreover have "y < real_of_int ?n + 1"
    by linarith
  ultimately have hi: "y < 2 ^ nat (bitlen ?n)"
    by linarith
  show ?thesis
    using lo hi k by (simp add: powr_realpow [symmetric])
qed

lemma binary_exponent_bracket:
  assumes "0 < a"
  shows "pow2 (binary_exponent a) \<le> a \<and> a < pow2 (binary_exponent a + 1)"
proof (cases "1 \<le> a")
  case True
  then show ?thesis
    using floor_bracket [OF True] by (simp add: binary_exponent_def pow2_powr)
next
  case False
  let ?y = "1 / a"
  let ?k = "bitlen \<lfloor>?y\<rfloor>"
  have y1: "1 \<le> ?y" using assms False by simp
  note br = floor_bracket [OF y1]
  have "0 < \<lfloor>?y\<rfloor>" using y1 by simp
  then have kpos: "0 < ?k"
    using bitlen_nonneg [of "\<lfloor>?y\<rfloor>"] bitlen_eq_zero_iff [of "\<lfloor>?y\<rfloor>"] by linarith
  have lo: "2 powr real_of_int (?k - 1) \<le> 1 / a" using br by simp
  have hi: "1 / a < 2 powr real_of_int ?k" using br by simp
  have a_hi: "a \<le> 2 powr real_of_int (1 - ?k)"
  proof -
    have "a * 2 powr real_of_int (?k - 1) \<le> 1"
      using lo assms by (simp add: field_simps)
    then have "a \<le> 1 / 2 powr real_of_int (?k - 1)"
      by (simp add: field_simps)
    also have "\<dots> = 2 powr real_of_int (1 - ?k)"
      by (simp add: powr_minus [symmetric] divide_inverse)
    finally show ?thesis .
  qed
  have a_lo: "2 powr real_of_int (- ?k) < a"
  proof -
    have "1 < a * 2 powr real_of_int ?k"
      using hi assms by (simp add: field_simps)
    then have "1 / 2 powr real_of_int ?k < a"
      by (simp add: field_simps)
    then show ?thesis
      by (simp add: powr_minus divide_inverse)
  qed
  have p: "(2::real) ^ nat (?k - 1) = 2 powr real_of_int (?k - 1)"
    using kpos by (simp add: powr_realpow [symmetric])
  show ?thesis
  proof (cases "a * 2 ^ nat (?k - 1) = 1")
    case True
    then have "a = 1 / 2 powr real_of_int (?k - 1)"
      unfolding p by (simp add: field_simps)
    then have "a = 2 powr real_of_int (1 - ?k)"
      by (simp add: powr_minus [symmetric] divide_inverse)
    then have eq: "pow2 (1 - ?k) = a"
      by (simp only: pow2_powr)
    have e: "binary_exponent a = 1 - ?k"
      using False True by (simp add: binary_exponent_def Let_def)
    have "a < 2 * a"
      using assms by simp
    then have "a < pow2 (1 - ?k + 1)"
      by (simp only: pow2_next eq)
    then show ?thesis
      unfolding e using eq by simp
  next
    case ne: False
    have "a \<noteq> 2 powr real_of_int (1 - ?k)"
    proof
      assume "a = 2 powr real_of_int (1 - ?k)"
      then have "a * 2 powr real_of_int (?k - 1) = 2 powr (real_of_int (1 - ?k) + real_of_int (?k - 1))"
        by (simp only: powr_add)
      then have "a * 2 ^ nat (?k - 1) = 1"
        unfolding p by simp
      then show False using ne by simp
    qed
    then have "a < 2 powr real_of_int (- ?k + 1)"
      using a_hi by (simp add: add.commute)
    then show ?thesis
      using False ne a_lo by (simp add: binary_exponent_def pow2_powr Let_def)
  qed
qed


lemma pow2_add: "pow2 (j + k) = pow2 j * pow2 k"
  by (simp add: pow2_powr powr_add)

lemma round_half_even_near: "\<bar>real_of_int (round_half_even v) - v\<bar> \<le> 1 / 2"
proof -
  have "real_of_int \<lfloor>v\<rfloor> \<le> v" "v < real_of_int \<lfloor>v\<rfloor> + 1"
    by linarith+
  then show ?thesis
    by (auto simp: round_half_even_def Let_def)
qed

text \<open>The rounded value lies on the grid of its exponent and within half a step of the number.\<close>

lemma round64_near:
  assumes "v \<noteq> 0"
  shows "\<bar>round64 v - v\<bar> \<le> pow2 (max (binary_exponent \<bar>v\<bar>) (- 1022) - 53)"
proof -
  define e where "e = max (binary_exponent \<bar>v\<bar>) (- 1022)"
  define m where "m = round_half_even (\<bar>v\<bar> * pow2 (52 - e))"
  have unit: "pow2 (52 - e) * pow2 (e - 52) = 1"
    using pow2_add [of "52 - e" "e - 52"] by (simp add: pow2_def)
  have half: "pow2 (e - 53) = pow2 (e - 52) / 2"
    using pow2_next [of "e - 53"] by simp
  have "\<bar>real_of_int m - \<bar>v\<bar> * pow2 (52 - e)\<bar> \<le> 1 / 2"
    unfolding m_def by (rule round_half_even_near)
  then have "\<bar>real_of_int m - \<bar>v\<bar> * pow2 (52 - e)\<bar> * pow2 (e - 52) \<le> 1 / 2 * pow2 (e - 52)"
    using pow2_pos [of "e - 52"] by (intro mult_right_mono) simp_all
  moreover have "\<bar>real_of_int m - \<bar>v\<bar> * pow2 (52 - e)\<bar> * pow2 (e - 52)
                   = \<bar>real_of_int m * pow2 (e - 52) - \<bar>v\<bar>\<bar>"
  proof -
    have "(real_of_int m - \<bar>v\<bar> * pow2 (52 - e)) * pow2 (e - 52)
            = real_of_int m * pow2 (e - 52) - \<bar>v\<bar> * (pow2 (52 - e) * pow2 (e - 52))"
      by (simp add: algebra_simps)
    then have "(real_of_int m - \<bar>v\<bar> * pow2 (52 - e)) * pow2 (e - 52)
            = real_of_int m * pow2 (e - 52) - \<bar>v\<bar>"
      by (simp only: unit mult_1_right)
    then show ?thesis
      using pow2_pos [of "e - 52"] by (metis abs_mult abs_of_pos)
  qed
  ultimately have mag: "\<bar>real_of_int m * pow2 (e - 52) - \<bar>v\<bar>\<bar> \<le> pow2 (e - 53)"
    by (simp add: half)
  have r: "round64 v = sgn v * (real_of_int m * pow2 (e - 52))"
    using assms by (simp add: round64_def Let_def e_def m_def mult.assoc)
  have "v = sgn v * \<bar>v\<bar>"
    by (simp add: sgn_mult_abs)
  then have "round64 v - v = sgn v * (real_of_int m * pow2 (e - 52) - \<bar>v\<bar>)"
    unfolding r by (simp add: algebra_simps)
  then have "\<bar>round64 v - v\<bar> = \<bar>sgn v * (real_of_int m * pow2 (e - 52) - \<bar>v\<bar>)\<bar>"
    by simp
  also have "\<dots> = \<bar>real_of_int m * pow2 (e - 52) - \<bar>v\<bar>\<bar>"
    using assms by (simp add: abs_mult abs_sgn_eq)
  finally show ?thesis
    using mag by (simp add: e_def)
qed

text \<open>The rounding on known binary64 values: 0.1, 0.8, one third, and 3, which it keeps.\<close>

lemma round64_examples:
  "round64 (1 / 10) = 3602879701896397 / 2 ^ 55 \<and>
   round64 (8 / 10) = 7205759403792794 / 2 ^ 53 \<and>
   round64 (1 / 3) = 6004799503160661 / 2 ^ 54 \<and>
   round64 (- (1 / 10)) = - (3602879701896397 / 2 ^ 55) \<and>
   round64 3 = 3"
  by code_simp


subsection \<open>Archetype colours\<close>

lemma archetype_color_table:
  assumes "map_of ARCHETYPE_COLORS k = Some c"
  shows "archetype_color (Some k) = JStr c"
proof -
  have "c \<noteq> []"
    using assms by (auto simp: ARCHETYPE_COLORS_def split: if_splits)
  then show ?thesis
    using assms by (simp add: archetype_color_def get_property_def property_key_def js_or_def)
qed

lemma archetype_color_fallback:
  assumes "map_of ARCHETYPE_COLORS k = None" and "k \<notin> set Object_prototype_keys"
  shows "archetype_color (Some k) = JStr ''#94a3b8''"
proof -
  have "get_property ARCHETYPE_COLORS ''Unknown'' = JStr ''#94a3b8''"
    by (simp add: get_property_def ARCHETYPE_COLORS_def)
  then show ?thesis
    using assms by (simp add: archetype_color_def get_property_def property_key_def js_or_def)
qed

lemma archetype_color_missing: "archetype_color None = JStr ''#94a3b8''"
  by code_simp

lemma archetype_color_everywhere:
  "ring_stroke (ring (draw_node ns d)) = archetype_color (archetype d) \<and>
   body_fill (body (draw_node ns d)) = archetype_color (archetype d) \<and>
   fst (legend_item (archetype d)) = archetype_color (archetype d) \<and>
   badge_background (node_click d) = archetype_color (archetype d)"
  by (simp add: draw_node_def legend_item_def node_click_def)

lemma archetype_color_inherited:
  assumes "k \<in> set Object_prototype_keys"
  shows "archetype_color (Some k) = JBuiltin k"
proof -
  have "map_of ARCHETYPE_COLORS k = None"
    using assms by (auto simp: ARCHETYPE_COLORS_def Object_prototype_keys_def)
  then show ?thesis
    using assms by (simp add: archetype_color_def get_property_def property_key_def js_or_def)
qed

text \<open>
  C4 at a node whose archetype is \<^verbatim>\<open>constructor\<close>. The archetype is not a key of the
  colour table, and the colour of the ring, the body, the legend entry and the badge is
  the same value; but that value is the function the table object inherits under that
  name, not the fallback colour.
\<close>

theorem inherited_archetype_color:
  "archetype eve = Some ''constructor'' \<and>
   map_of ARCHETYPE_COLORS ''constructor'' = None \<and>
   ring_stroke (ring (draw_node [eve] eve)) = JBuiltin ''constructor'' \<and>
   body_fill (body (draw_node [eve] eve)) = JBuiltin ''constructor'' \<and>
   legend (page_of (render example_viewport \<lparr>nodes = [eve], links = []\<rparr>))
     = [(JBuiltin ''constructor'', ''constructor'')] \<and>
   badge_background (node_click eve) = JBuiltin ''constructor'' \<and>
   archetype_color (Some ''Wizard'') = JStr ''#94a3b8'' \<and>
   JBuiltin ''constructor'' \<noteq> JStr ''#94a3b8''"
  by code_simp

subsection \<open>Drag\<close>

lemma drag_moves_Nil: "drag_moves [] st = st"
  by (simp add: drag_moves_def)

lemma drag_moves_snoc: "drag_moves (ms @ [m]) st = dragged m (drag_moves ms st)"
  by (simp add: drag_moves_def)

lemma drag_moves_sim: "fst (drag_moves ms st) = fst st"
proof (induction ms rule: rev_induct)
  case Nil
  then show ?case by (simp add: drag_moves_Nil)
next
  case (snoc m ms)
  then show ?case
    by (cases "drag_moves ms st") (simp add: drag_moves_snoc dragged_def)
qed

lemma drag_moves_node:
  "snd (drag_moves ms (s, d)) =
     (if ms = [] then d
      else d\<lparr>fx := Some (event_x (last ms)), fy := Some (event_y (last ms))\<rparr>)"
proof (induction ms rule: rev_induct)
  case Nil
  then show ?case by (simp add: drag_moves_Nil)
next
  case (snoc m ms)
  then show ?case
    by (cases "drag_moves ms (s, d)") (auto simp: drag_moves_snoc dragged_def)
qed

text \<open>
  C5. At the start of a drag the node is pinned where it is, and the simulation gets the
  decay target 0.3 and a running timer if no other gesture is active, and is left alone
  otherwise. Each move pins the node at the position of that event and leaves the
  simulation alone. At the end the pin is cleared, and the decay target goes back to 0 if
  no other gesture is active. So after start, any moves and end, the node is the node from
  before the gesture with no pin, whatever it was before and wherever it was dragged.
\<close>

theorem drag_pins_then_releases:
  "dragStarted e (s, d) =
     (if active e = 0 then s\<lparr>alphaTarget := 3 / 10, timer_running := True\<rparr> else s,
      d\<lparr>fx := Some (node_x d), fy := Some (node_y d)\<rparr>) \<and>
   dragged e (s, d) = (s, d\<lparr>fx := Some (event_x e), fy := Some (event_y e)\<rparr>) \<and>
   drag_moves (ms @ [m]) (dragStarted e0 (s, d)) =
     (fst (dragStarted e0 (s, d)), d\<lparr>fx := Some (event_x m), fy := Some (event_y m)\<rparr>) \<and>
   dragEnded e (s, d) =
     (if active e = 0 then s\<lparr>alphaTarget := 0\<rparr> else s, d\<lparr>fx := None, fy := None\<rparr>) \<and>
   snd (drag_gesture e0 ms e1 (s, d)) = d\<lparr>fx := None, fy := None\<rparr> \<and>
   fx (snd (drag_gesture e0 ms e1 (s, d))) = None \<and>
   fy (snd (drag_gesture e0 ms e1 (s, d))) = None \<and>
   fst (drag_gesture e0 ms e1 (s, d)) =
     (if active e1 = 0 then (fst (dragStarted e0 (s, d)))\<lparr>alphaTarget := 0\<rparr>
      else fst (dragStarted e0 (s, d)))"
proof -
  have start: "dragStarted e (s, d) =
     (if active e = 0 then s\<lparr>alphaTarget := 3 / 10, timer_running := True\<rparr> else s,
      d\<lparr>fx := Some (node_x d), fy := Some (node_y d)\<rparr>)" for e
    by (simp add: dragStarted_def)
  have move: "dragged e (s, d) = (s, d\<lparr>fx := Some (event_x e), fy := Some (event_y e)\<rparr>)"
    by (simp add: dragged_def)
  have finish: "dragEnded e (s', d') =
     (if active e = 0 then s'\<lparr>alphaTarget := 0\<rparr> else s', d'\<lparr>fx := None, fy := None\<rparr>)"
    for e s' d'
    by (simp add: dragEnded_def)
  obtain s0 where started: "dragStarted e0 (s, d) = (s0, d\<lparr>fx := Some (node_x d), fy := Some (node_y d)\<rparr>)"
    by (simp add: start)
  have moved_sim: "fst (drag_moves ks (dragStarted e0 (s, d))) = s0" for ks
    by (simp add: drag_moves_sim started)
  have moved_node: "snd (drag_moves ks (dragStarted e0 (s, d))) =
      (if ks = [] then d\<lparr>fx := Some (node_x d), fy := Some (node_y d)\<rparr>
       else d\<lparr>fx := Some (event_x (last ks)), fy := Some (event_y (last ks))\<rparr>)" for ks
    unfolding started by (simp add: drag_moves_node)
  have moves: "drag_moves (ms @ [m]) (dragStarted e0 (s, d)) =
     (fst (dragStarted e0 (s, d)), d\<lparr>fx := Some (event_x m), fy := Some (event_y m)\<rparr>)"
    using moved_sim [of "ms @ [m]"] moved_node [of "ms @ [m]"] started
    by (metis append_is_Nil_conv fst_conv last_snoc not_Cons_self2 prod.collapse)
  obtain dm where mid: "drag_moves ms (dragStarted e0 (s, d)) = (s0, dm)"
    and dm: "dm\<lparr>fx := None, fy := None\<rparr> = d\<lparr>fx := None, fy := None\<rparr>"
  proof
    show "drag_moves ms (dragStarted e0 (s, d)) = (s0, snd (drag_moves ms (dragStarted e0 (s, d))))"
      using moved_sim [of ms] by (metis prod.collapse)
    show "(snd (drag_moves ms (dragStarted e0 (s, d))))\<lparr>fx := None, fy := None\<rparr>
            = d\<lparr>fx := None, fy := None\<rparr>"
      by (simp add: moved_node)
  qed
  have whole: "drag_gesture e0 ms e1 (s, d) =
      (if active e1 = 0 then s0\<lparr>alphaTarget := 0\<rparr> else s0, d\<lparr>fx := None, fy := None\<rparr>)"
    by (simp add: drag_gesture_def mid finish dm)
  have node_after: "snd (drag_gesture e0 ms e1 (s, d)) = d\<lparr>fx := None, fy := None\<rparr>"
    by (simp add: whole)
  have fx_after: "fx (snd (drag_gesture e0 ms e1 (s, d))) = None"
    by (simp add: whole)
  have fy_after: "fy (snd (drag_gesture e0 ms e1 (s, d))) = None"
    by (simp add: whole)
  have sim_after: "fst (drag_gesture e0 ms e1 (s, d)) =
     (if active e1 = 0 then (fst (dragStarted e0 (s, d)))\<lparr>alphaTarget := 0\<rparr>
      else fst (dragStarted e0 (s, d)))"
    by (simp add: whole started)
  show ?thesis
    by (intro conjI; (rule start move moves finish node_after fx_after fy_after sim_after))
qed

theorem drag_pins_then_releases_witness:
  "fx (snd (dragStarted drag_start (example_simulation, ada))) = Some 10 \<and>
   alphaTarget (fst (dragStarted drag_start (example_simulation, ada))) = 3 / 10 \<and>
   fx (snd (drag_moves [drag_to] (dragStarted drag_start (example_simulation, ada)))) = Some 55 \<and>
   snd (drag_gesture drag_start [drag_to] drag_end (example_simulation, ada)) = ada \<and>
   alphaTarget (fst (drag_gesture drag_start [drag_to] drag_end (example_simulation, ada))) = 0"
proof -
  note t = drag_pins_then_releases
    [where e = drag_start and s = example_simulation and d = ada and ms = "[drag_to]"
       and m = drag_to and ?e0.0 = drag_start and ?e1.0 = drag_end]
  have unpinned: "ada\<lparr>fx := None, fy := None\<rparr> = ada"
    by code_simp
  have a: "fx (snd (dragStarted drag_start (example_simulation, ada))) = Some 10"
    by code_simp
  have b: "alphaTarget (fst (dragStarted drag_start (example_simulation, ada))) = 3 / 10"
    by code_simp
  have c: "fx (snd (drag_moves [drag_to] (dragStarted drag_start (example_simulation, ada)))) = Some 55"
    by code_simp
  have "snd (drag_gesture drag_start [drag_to] drag_end (example_simulation, ada))
          = ada\<lparr>fx := None, fy := None\<rparr>"
    using t by blast
  then have d: "snd (drag_gesture drag_start [drag_to] drag_end (example_simulation, ada)) = ada"
    using unpinned by (rule trans)
  have e: "alphaTarget (fst (drag_gesture drag_start [drag_to] drag_end (example_simulation, ada))) = 0"
    by code_simp
  show ?thesis
    by (intro conjI; fact)
qed

subsection \<open>Tooltip placement\<close>




subsection \<open>render\<close>

lemma nodeById_None_iff: "nodeById ns i = None \<longleftrightarrow> i \<notin> node_id ` set ns"
  by (simp add: nodeById_def map_of_eq_None_iff image_image)

lemma initialize_links_missing:
  assumes "initialize_links ns ls = Inl (NodeNotFound i)"
  shows "i \<notin> node_id ` set ns"
  using assms
proof (induction ls)
  case Nil
  then show ?case by simp
next
  case (Cons l ls)
  then show ?case
    by (auto simp: nodeById_None_iff [symmetric] split: option.splits sum.splits)
qed

lemma initialize_links_throws:
  assumes "l \<in> set ls"
    and "source l \<notin> node_id ` set ns \<or> target l \<notin> node_id ` set ns"
  shows "\<exists>e. initialize_links ns ls = Inl e"
  using assms
proof (induction ls)
  case Nil
  then show ?case by simp
next
  case (Cons k ls)
  show ?case
  proof (cases "k = l")
    case True
    then show ?thesis
      using Cons.prems(2)
      by (auto simp: nodeById_None_iff [symmetric] split: option.splits sum.splits)
  next
    case False
    then have "\<exists>e. initialize_links ns ls = Inl e"
      using Cons by simp
    then show ?thesis
      by (auto split: option.splits sum.splits)
  qed
qed

text \<open>
  C7. For a graph with no nodes, render returns, and the page it leaves has exactly one
  text, the placeholder, anchored in the middle at the centre of the viewport, and nothing
  else: no simulation, no groups, no node, no link, no legend entry, no selector option.
\<close>

theorem render_empty_graph:
  assumes "nodes data = []"
  shows "render vp data = Inr (blank_page\<lparr>svg_texts := [placeholder_text vp]\<rparr>) \<and>
         svg_texts (page_of (render vp data)) = [placeholder_text vp] \<and>
         text_content (placeholder_text vp) = ''No users found. The network is empty.'' \<and>
         text_anchor (placeholder_text vp) = ''middle'' \<and>
         text_x (placeholder_text vp) = width vp / 2 \<and>
         text_y (placeholder_text vp) = height vp / 2 \<and>
         sim (page_of (render vp data)) = None \<and>
         scene_groups (page_of (render vp data)) = 0 \<and>
         node_gs (page_of (render vp data)) = [] \<and>
         link_lines (page_of (render vp data)) = [] \<and>
         legend (page_of (render vp data)) = [] \<and>
         dept_options (page_of (render vp data)) = [] \<and>
         arch_options (page_of (render vp data)) = []"
  using assms by (simp add: render_def page_of_def blank_page_def placeholder_text_def)

theorem render_empty_graph_witness:
  "nodes empty_graph = [] \<and>
   render example_viewport empty_graph
     = Inr (blank_page\<lparr>svg_texts := [placeholder_text example_viewport]\<rparr>) \<and>
   map text_content (svg_texts (page_of (render example_viewport empty_graph)))
     = [''No users found. The network is empty.''] \<and>
   sim (page_of (render example_viewport empty_graph)) = None"
proof -
  have n: "nodes empty_graph = []"
    by code_simp
  note shown = render_empty_graph [OF n, of example_viewport]
  have r: "render example_viewport empty_graph
             = Inr (blank_page\<lparr>svg_texts := [placeholder_text example_viewport]\<rparr>)"
    using shown by blast
  have "svg_texts (page_of (render example_viewport empty_graph)) = [placeholder_text example_viewport]"
    and "text_content (placeholder_text example_viewport) = ''No users found. The network is empty.''"
    using shown by blast+
  then have t: "map text_content (svg_texts (page_of (render example_viewport empty_graph)))
                  = [''No users found. The network is empty.'']"
    by simp
  have s: "sim (page_of (render example_viewport empty_graph)) = None"
    using shown by blast
  show ?thesis
    by (intro conjI; fact)
qed

text \<open>
  C8, as the code has it. For a graph with at least one node and a link whose source or
  target is the id of no node, render throws: the error names an id that no node has, and
  the page at the throw holds no link, no node and no placeholder.
\<close>

theorem render_throws_on_dangling_link:
  assumes "nodes g \<noteq> []" and "l \<in> set (links g)"
    and "source l \<notin> node_id ` set (nodes g) \<or> target l \<notin> node_id ` set (nodes g)"
  shows "\<exists>i p. render vp g = Inl (NodeNotFound i, p) \<and> i \<notin> node_id ` set (nodes g) \<and>
           link_lines p = [] \<and> node_gs p = [] \<and> svg_texts p = []"
proof -
  obtain e where e: "initialize_links (nodes g) (links g) = Inl e"
    using initialize_links_throws [OF assms(2,3)] by blast
  obtain i where i: "e = NodeNotFound i"
    by (cases e)
  have "i \<notin> node_id ` set (nodes g)"
    using e i by (auto dest: initialize_links_missing)
  then show ?thesis
    using assms(1) e i by (simp add: render_def Let_def blank_page_def)
qed

theorem render_throws_on_dangling_link_witness:
  "render example_viewport dangling_graph
     = Inl (NodeNotFound 7, page_of (render example_viewport dangling_graph)) \<and>
   link_lines (page_of (render example_viewport dangling_graph)) = [] \<and>
   node_gs (page_of (render example_viewport dangling_graph)) = []"
proof -
  have n: "nodes dangling_graph \<noteq> []"
    by code_simp
  have m: "ada_nobody \<in> set (links dangling_graph)"
    by code_simp
  have d: "source ada_nobody \<notin> node_id ` set (nodes dangling_graph)
             \<or> target ada_nobody \<notin> node_id ` set (nodes dangling_graph)"
    by code_simp
  obtain i p where thrown: "render example_viewport dangling_graph = Inl (NodeNotFound i, p)"
    and bare: "link_lines p = []" "node_gs p = []"
    using render_throws_on_dangling_link [OF n m d, of example_viewport] by blast
  have which: "render example_viewport dangling_graph
                 = Inl (NodeNotFound 7, page_of (render example_viewport dangling_graph))"
    by code_simp
  have "p = page_of (render example_viewport dangling_graph)"
    using thrown by (simp add: page_of_def)
  then show ?thesis
    using which bare by simp
qed

text \<open>
  C8 as the specification words it fails on a graph with a link and no node: the link's
  source is the id of no node, and render returns with the placeholder page instead of
  throwing.
\<close>

theorem dangling_link_without_nodes_counterexample:
  "ada_alan \<in> set (links orphan_graph) \<and>
   source ada_alan \<notin> node_id ` set (nodes orphan_graph) \<and>
   render example_viewport orphan_graph
     = Inr (blank_page\<lparr>svg_texts := [placeholder_text example_viewport]\<rparr>)"
  by code_simp

end
